theory Spec2Isabelle
  imports Main
begin

section \<open>The decode driver of vhsdecode/main.py\<close>

text \<open>
  The function \<open>main\<close> of \<open>vhsdecode/main.py\<close> is embedded as a function from the
  results of the calls it makes to other modules to the ordered list of effects it
  performs, the disposition of SIGINT it leaves behind and the way it ends.

  The decoder object (\<open>VHSDecode\<close>), the loader and the queue returned by
  \<open>jsondump_thread\<close> live in other modules. They are parameters of the model: the
  decoder is a state type \<open>'e\<close> with the operations \<open>main\<close> calls on it, and every
  call \<open>main\<close> makes is recorded as an event, in program order.
\<close>

subsection \<open>Exceptions\<close>

text \<open>
  \<open>main\<close> tells three kinds of exception apart: \<open>KeyboardInterrupt\<close>, \<open>ValueError\<close>
  (from the loader) and everything derived from \<open>Exception\<close>. \<open>SystemExit\<close> stands for
  the exceptions that derive from \<open>BaseException\<close> only, which no handler of \<open>main\<close>
  catches.
\<close>

datatype exc =
    KeyboardInterrupt
  | SystemExit int
  | ValueError string
  | RuntimeError string

fun is_Exception :: "exc \<Rightarrow> bool" where
  "is_Exception KeyboardInterrupt = False"
| "is_Exception (SystemExit _) = False"
| "is_Exception (ValueError _) = True"
| "is_Exception (RuntimeError _) = True"

subsection \<open>Arguments, configuration and events\<close>

text \<open>The attributes of the parsed argument namespace that \<open>main\<close> reads after parsing.\<close>

record args =
  umatic :: bool
  dodod :: bool
  tape_format :: string
  nodod :: bool
  threads :: int
  start_fileloc :: int
  ntscj :: bool

text \<open>The keyword arguments of the \<open>VHSDecode\<close> constructor that \<open>main\<close> computes itself.\<close>

record config =
  cfg_system :: string
  cfg_tape_format :: string
  cfg_doDOD :: bool
  cfg_threads :: int
  cfg_inputfreq :: int

datatype handler = SIG_IGN | SIG_DFL | default_int_handler

datatype stream = Stdout | Stderr

datatype item = Str string | Num int | Namespace args | Err exc

datatype 'j event =
    Print stream "item list"
  | Print_tb exc
  | Signal handler
  | Init_logging string
  | Warning string "string list"
  | New_VHSDecode config
  | Roughseek int "bool option"
  | Set_blackIRE
  | Jsondump_thread
  | Readfield
  | Put "'j option"
  | Close
  | Join

text \<open>
  \<open>Put (Some j)\<close> is \<open>jsondumper.put(j)\<close> and \<open>Put None\<close> is \<open>jsondumper.put(None)\<close>, the
  message that tells the writer thread to stop. \<open>Join\<close> is a wait for the writer thread
  (a \<open>join\<close> on the queue or on the thread); it is in the vocabulary so that waiting can be
  spoken about, and no definition below produces it, as \<open>main\<close> has no such call.
\<close>

text \<open>How a run ends: \<open>exit(n)\<close>, or an exception that leaves \<open>main\<close>.\<close>

datatype ending = Exit int | Uncaught exc

subsection \<open>The decoder and the other collaborators\<close>

text \<open>
  The operations \<open>main\<close> uses on the decoder. \<open>readfield\<close> returns a field, \<open>None\<close>
  or raises; in each case it may have changed the decoder.
\<close>

record ('e, 'f, 'j) engine =
  readfield :: "'e \<Rightarrow> (exc + 'f option) \<times> 'e"
  fields_written :: "'e \<Rightarrow> int"
  curfield :: "'e \<Rightarrow> 'f option"
  fdoffset :: "'e \<Rightarrow> int"
  build_json :: "'e \<Rightarrow> 'f option \<Rightarrow> 'j"
  roughseek :: "'e \<Rightarrow> int \<Rightarrow> bool option \<Rightarrow> 'e"
  set_blackIRE :: "'e \<Rightarrow> 'e"
  close :: "'e \<Rightarrow> 'e"

text \<open>
  What the calls before the loop return: \<open>get_basics\<close>, \<open>select_system\<close>,
  \<open>make_loader\<close>, the handler \<open>signal.signal\<close> finds installed, and the constructor.
  \<open>str_upper\<close> is Python's \<open>str.upper\<close>, a function of the language's library that
  follows the Unicode tables; it is a parameter, so that what is proved holds for the
  function as it is.
\<close>

record 'e env =
  use_gui :: bool
  filename :: string
  outname :: string
  firstframe :: int
  req_frames :: int
  system :: string
  make_loader :: "exc + unit"
  installed_handler :: handler
  VHSDecode :: "config \<Rightarrow> exc + 'e"
  str_upper :: "string \<Rightarrow> string"

subsection \<open>Tape format\<close>

definition supported_tape_formats :: "string set" where
  "supported_tape_formats = {''VHS'', ''SVHS'', ''UMATIC''}"

definition select_tape_format :: "'e env \<Rightarrow> args \<Rightarrow> string" where
  "select_tape_format v a =
     (if \<not> use_gui v \<and> umatic a then ''UMATIC'' else str_upper v (tape_format a))"

subsection \<open>Finalization\<close>

definition snapshot :: "('e, 'f, 'j) engine \<Rightarrow> 'e \<Rightarrow> 'j" where
  "snapshot E e = build_json E e (curfield E e)"

definition cleanup :: "('e, 'f, 'j) engine \<Rightarrow> 'e \<Rightarrow> 'j event list \<times> 'e" where
  "cleanup E e = ([Put (Some (snapshot E e)), Close, Put None], close E e)"

subsection \<open>The decode loop\<close>

definition snapshot_due :: "int \<Rightarrow> bool" where
  "snapshot_due fw = (fw < 100 \<or> fw mod 500 = 0)"

definition interrupt_report :: "'j event list" where
  "interrupt_report = [Print Stdout [Str ''Terminated, saving JSON and exiting'']]"

definition error_report :: "args \<Rightarrow> int \<Rightarrow> exc \<Rightarrow> 'j event list" where
  "error_report a off err =
     [Print Stderr [Str (CHR 0x0A # ''ERROR - please paste the following into a bug report:'')],
      Print Stderr [Str ''current sample:'', Num off],
      Print Stderr [Str ''arguments:'', Namespace a],
      Print Stderr [Str ''Exception:'', Err err, Str '' Traceback:''],
      Print_tb err]"

text \<open>
  One pass through the body of the \<open>while\<close> loop. The result is either the end of the
  run (a handler ran and called \<open>exit\<close>, or the exception left \<open>main\<close>), or the new
  value of \<open>done\<close> and the decoder for the next test of the loop condition.
\<close>

definition loop_body ::
  "('e, 'f, 'j) engine \<Rightarrow> args \<Rightarrow> bool \<Rightarrow> 'e \<Rightarrow> 'j event list \<times> (ending + bool \<times> 'e)" where
  "loop_body E a done e =
     (case readfield E e of
        (Inl err, e') \<Rightarrow>
          (if err = KeyboardInterrupt then
             ([Readfield] @ interrupt_report @ fst (cleanup E e'), Inl (Exit 1))
           else if is_Exception err then
             ([Readfield] @ error_report a (fdoffset E e') err @ fst (cleanup E e'), Inl (Exit 1))
           else ([Readfield], Inl (Uncaught err)))
      | (Inr f, e') \<Rightarrow>
          (let done' = (if f = None then True else done)
           in ([Readfield] @
               (if snapshot_due (fields_written E e') then [Put (Some (snapshot E e'))] else []),
               Inr (done', e'))))"

definition loop_cond :: "('e, 'f, 'j) engine \<Rightarrow> int \<Rightarrow> bool \<Rightarrow> 'e \<Rightarrow> bool" where
  "loop_cond E req done e = (\<not> done \<and> fields_written E e < req * 2)"

definition normal_exit :: "('e, 'f, 'j) engine \<Rightarrow> 'e \<Rightarrow> 'j event list" where
  "normal_exit E e = [Print Stdout [Str ''saving JSON and exiting'']] @ fst (cleanup E e)"

text \<open>
  The loop, with the number of calls of \<open>readfield\<close> it may make as fuel. The result is
  the list of events from the first test of the loop condition on, and the ending;
  \<open>None\<close> says that the loop wanted one more \<open>readfield\<close> than the fuel allows.
\<close>

fun decode_loop ::
  "nat \<Rightarrow> ('e, 'f, 'j) engine \<Rightarrow> args \<Rightarrow> int \<Rightarrow> bool \<Rightarrow> 'e \<Rightarrow> 'j event list \<times> ending option" where
  "decode_loop 0 E a req done e =
     (if loop_cond E req done e then ([], None) else (normal_exit E e, Some (Exit 0)))"
| "decode_loop (Suc n) E a req done e =
     (if loop_cond E req done e then
        (case loop_body E a done e of
           (evs, Inl r) \<Rightarrow> (evs, Some r)
         | (evs, Inr (done', e')) \<Rightarrow>
             (case decode_loop n E a req done' e' of (evs', r) \<Rightarrow> (evs @ evs', r)))
      else (normal_exit E e, Some (Exit 0)))"

subsection \<open>The whole of main\<close>

record 'j run =
  sigint :: handler
  trace :: "'j event list"
  result :: "ending option"

definition make_config :: "'e env \<Rightarrow> args \<Rightarrow> config" where
  "make_config v a =
     \<lparr>cfg_system = system v,
      cfg_tape_format = select_tape_format v a,
      cfg_doDOD = (\<not> nodod a),
      cfg_threads = threads a,
      cfg_inputfreq = 40\<rparr>"

text \<open>From masking SIGINT to the call of the constructor.\<close>

definition before_construction :: "'e env \<Rightarrow> args \<Rightarrow> 'j event list" where
  "before_construction v a =
     [Signal SIG_IGN, Init_logging (outname v @ ''.log'')] @
     (if select_tape_format v a \<notin> supported_tape_formats
      then [Warning ''Tape format %s not supported! Defaulting to VHS''
              [select_tape_format v a]]
      else []) @
     (if \<not> use_gui v \<and> dodod a
      then [Warning ''--doDOD is deprecated, dod is on by default, use noDOD to turn off.'' []]
      else []) @
     [New_VHSDecode (make_config v a)]"

text \<open>From the restored handler to the start of the writer thread.\<close>

definition seek :: "('e, 'f, 'j) engine \<Rightarrow> 'e env \<Rightarrow> args \<Rightarrow> 'e \<Rightarrow> 'j event list \<times> 'e" where
  "seek E v a e =
     (let (ev1, e1) =
            (if start_fileloc a \<noteq> - 1
             then ([Roughseek (start_fileloc a) (Some False)],
                   roughseek E e (start_fileloc a) (Some False))
             else ([Roughseek (firstframe v * 2) None],
                   roughseek E e (firstframe v * 2) None));
          (ev2, e2) =
            (if system v = ''NTSC'' \<and> \<not> ntscj a
             then ([Set_blackIRE], set_blackIRE E e1) else ([], e1))
      in (ev1 @ ev2 @ [Jsondump_thread], e2))"

text \<open>
  \<open>main\<close> from the call of \<open>make_loader\<close> on. Building the argument parser, the
  options dictionaries (\<open>rf_options\<close>, \<open>extra_options\<close>), \<open>level_adjust\<close> and the debug
  plot are left out: they are handed to the constructor as they are and have no part
  in the control flow. \<open>make_loader\<close>, the constructor and \<open>readfield\<close> may raise;
  the other calls (\<open>init_logging\<close>, \<open>roughseek\<close>, \<open>build_json\<close>, \<open>put\<close>, \<open>close\<close>) are
  taken to return here; for \<open>build_json\<close>, \<open>put\<close> and \<open>close\<close> this is lifted in
  \<open>main_raising\<close> below. \<open>sigint\<close> is the disposition of SIGINT when \<open>main\<close> is left.
\<close>

definition main :: "nat \<Rightarrow> ('e, 'f, 'j) engine \<Rightarrow> 'e env \<Rightarrow> args \<Rightarrow> 'j run" where
  "main fuel E v a =
     (case make_loader v of
        Inl err \<Rightarrow>
          (case err of
             ValueError msg \<Rightarrow>
               \<lparr>sigint = installed_handler v, trace = [Print Stdout [Err err]],
                result = Some (Exit 1)\<rparr>
           | _ \<Rightarrow> \<lparr>sigint = installed_handler v, trace = [], result = Some (Uncaught err)\<rparr>)
      | Inr loader \<Rightarrow>
          (case VHSDecode v (make_config v a) of
             Inl err \<Rightarrow>
               \<lparr>sigint = SIG_IGN, trace = before_construction v a,
                result = Some (Uncaught err)\<rparr>
           | Inr e0 \<Rightarrow>
               (let (evs, e1) = seek E v a e0;
                    (evl, r) = decode_loop fuel E a (req_frames v) False e1
                in \<lparr>sigint = installed_handler v,
                    trace = before_construction v a @ [Signal (installed_handler v)] @ evs @ evl,
                    result = r\<rparr>)))"

subsection \<open>Observations on traces\<close>

definition no_final :: "'j event list \<Rightarrow> bool" where
  "no_final evs = (Close \<notin> set evs \<and> Put None \<notin> set evs)"

text \<open>The messages put on the queue, in the order of the calls.\<close>

fun messages :: "'j event list \<Rightarrow> 'j option list" where
  "messages [] = []"
| "messages (Put m # evs) = m # messages evs"
| "messages (_ # evs) = messages evs"

text \<open>The handlers installed for SIGINT, in the order of the calls.\<close>

fun signals :: "'j event list \<Rightarrow> handler list" where
  "signals [] = []"
| "signals (Signal h # evs) = h # signals evs"
| "signals (_ # evs) = signals evs"

subsection \<open>Two small decoders\<close>

text \<open>
  A decoder that plays a script: its state is the number of calls of \<open>readfield\<close> so far
  and \<open>fields_written\<close>; a returned field adds one to \<open>fields_written\<close>, and after the
  script it returns \<open>None\<close>. Its snapshot is the value of \<open>fields_written\<close>.
\<close>

definition script_engine :: "(exc + nat option) list \<Rightarrow> (nat \<times> int, nat, int) engine" where
  "script_engine rs =
     \<lparr>readfield = (\<lambda>(p, w). case drop p rs of
          [] \<Rightarrow> (Inr None, (p, w))
        | r # _ \<Rightarrow> (r, (Suc p, (case r of Inr (Some _) \<Rightarrow> w + 1 | _ \<Rightarrow> w)))),
      fields_written = snd,
      curfield = (\<lambda>(p, w). if p = 0 then None else Some (p - 1)),
      fdoffset = (\<lambda>(p, w). int p * 1000),
      build_json = (\<lambda>(p, w) f. w),
      roughseek = (\<lambda>e loc is_field. e),
      set_blackIRE = (\<lambda>e. e),
      close = (\<lambda>e. e)\<rparr>"

text \<open>A decoder that returns a field on every call; its state is \<open>fields_written\<close>.\<close>

definition endless_engine :: "(int, nat, int) engine" where
  "endless_engine =
     \<lparr>readfield = (\<lambda>w. (Inr (Some 0), w + 1)),
      fields_written = (\<lambda>w. w),
      curfield = (\<lambda>w. Some 0),
      fdoffset = (\<lambda>w. w * 1000),
      build_json = (\<lambda>w f. w),
      roughseek = (\<lambda>e loc is_field. e),
      set_blackIRE = (\<lambda>e. e),
      close = (\<lambda>e. e)\<rparr>"

text \<open>
  For the examples, a stand-in for \<open>str.upper\<close>: it changes the letters a to z and
  nothing else, which is what \<open>str.upper\<close> does on a string of ASCII characters.
\<close>

definition ascii_upper_char :: "char \<Rightarrow> char" where
  "ascii_upper_char c =
     (if 97 \<le> (of_char c :: nat) \<and> (of_char c :: nat) \<le> 122
      then char_of ((of_char c :: nat) - 32) else c)"

definition ascii_upper :: "string \<Rightarrow> string" where
  "ascii_upper s = map ascii_upper_char s"

definition example_args :: args where
  "example_args =
     \<lparr>umatic = False, dodod = False, tape_format = ''VHS'', nodod = False,
      threads = 1, start_fileloc = - 1, ntscj = False\<rparr>"

definition example_env :: "(nat \<times> int) env" where
  "example_env =
     \<lparr>use_gui = False, filename = ''in.u8'', outname = ''out'', firstframe = 0,
      req_frames = 1, system = ''PAL'', make_loader = Inr (),
      installed_handler = default_int_handler, VHSDecode = (\<lambda>c. Inr (0, 0)),
      str_upper = ascii_upper\<rparr>"

text \<open>The same collaborators, with a constructor that raises.\<close>

definition failing_env :: "(nat \<times> int) env" where
  "failing_env = example_env\<lparr>VHSDecode := (\<lambda>c. Inl (RuntimeError ''no decoder''))\<rparr>"

subsection \<open>Kinds of events\<close>

text \<open>The events the loop and the finalization can produce.\<close>

fun loop_event :: "'j event \<Rightarrow> bool" where
  "loop_event (Print s xs) = True"
| "loop_event (Print_tb x) = True"
| "loop_event Readfield = True"
| "loop_event (Put m) = True"
| "loop_event Close = True"
| "loop_event _ = False"

text \<open>What \<open>main\<close> does between masking SIGINT and calling the constructor.\<close>

definition before_call :: "'e env \<Rightarrow> args \<Rightarrow> 'j event list" where
  "before_call v a = butlast (tl (before_construction v a))"

subsection \<open>The writer thread\<close>

text \<open>
  Modelled from the spec: the Checkpoint Writer, which is the thread started by
  \<open>jsondump_thread\<close> in \<open>lddecode/utils.py\<close> and is not part of \<open>main.py\<close>. It takes the
  messages in the order in which they were put on the queue, writes each snapshot, and
  stops at the stop sentinel. The result is the list of snapshots it has written.
\<close>

fun writer :: "'j option list \<Rightarrow> 'j list" where
  "writer [] = []"
| "writer (None # ms) = []"
| "writer (Some j # ms) = j # writer ms"

subsection \<open>The tape-format option\<close>

text \<open>
  The option is declared with \<open>type=str.upper\<close>, \<open>choices=supported_tape_formats\<close> and
  \<open>default="VHS"\<close>, and \<open>main\<close> calls \<open>parse_args\<close> before anything else. The parser
  object comes from \<open>common_parser\<close>, which is another module; it is taken to be a parser
  of the \<open>argparse\<close> library. Such a parser applies \<open>type\<close> to the string on the command line,
  and when the result is not among \<open>choices\<close> it reports the error and raises
  \<open>SystemExit(2)\<close>; a default that is a string goes through \<open>type\<close> and is not checked
  against \<open>choices\<close>. The argument is \<open>None\<close> when the option is not given.
\<close>

definition parse_tape_format :: "'e env \<Rightarrow> string option \<Rightarrow> exc + string" where
  "parse_tape_format v opt =
     (case opt of
        None \<Rightarrow> Inr (str_upper v ''VHS'')
      | Some raw \<Rightarrow>
          (if str_upper v raw \<in> supported_tape_formats then Inr (str_upper v raw)
           else Inl (SystemExit 2)))"

text \<open>
  \<open>main\<close> with the parsing of this option: \<open>a\<close> is the namespace but for the attribute
  \<open>tape_format\<close>, which the parser sets. What the parser prints on an error is not
  recorded.
\<close>

definition main_argv ::
  "nat \<Rightarrow> ('e, 'f, 'j) engine \<Rightarrow> 'e env \<Rightarrow> string option \<Rightarrow> args \<Rightarrow> 'j run" where
  "main_argv fuel E v opt a =
     (case parse_tape_format v opt of
        Inl err \<Rightarrow> \<lparr>sigint = installed_handler v, trace = [], result = Some (Uncaught err)\<rparr>
      | Inr t \<Rightarrow> main fuel E v (a\<lparr>tape_format := t\<rparr>))"

subsection \<open>When the other calls of the loop and of the finalization raise\<close>

text \<open>
  In \<open>main.py\<close> the \<open>try\<close> statement of the loop holds the call of \<open>readfield\<close> and nothing
  else. An exception raised by \<open>build_json\<close>, by \<open>put\<close> or by \<open>close\<close>, in the loop or in
  \<open>cleanup\<close>, and a \<open>KeyboardInterrupt\<close> that arrives during one of these calls, is caught
  by no handler and leaves \<open>main\<close>. The definitions above take these calls to return. The
  definitions of this part do not: whether a call raises is given by the record
  \<open>faults\<close>, as a function of the state of the decoder at the call. With no faults they
  are the definitions above (lemmas \<open>decode_loop_raising_no_faults\<close> and
  \<open>main_raising_no_faults\<close>).
\<close>

record ('e, 'j) faults =
  build_json_raises :: "'e \<Rightarrow> exc option"
  put_raises :: "'e \<Rightarrow> 'j option \<Rightarrow> exc option"
  close_raises :: "'e \<Rightarrow> exc option"

definition no_faults :: "('e, 'j) faults" where
  "no_faults =
     \<lparr>build_json_raises = (\<lambda>e. None), put_raises = (\<lambda>e m. None), close_raises = (\<lambda>e. None)\<rparr>"

text \<open>
  The statement \<open>jsondumper.put(vhsd.build_json(vhsd.curfield))\<close>: the events, and the
  exception it raises if it does. A call of \<open>put\<close> is recorded when it is made.
\<close>

definition put_snapshot ::
  "('e, 'j) faults \<Rightarrow> ('e, 'f, 'j) engine \<Rightarrow> 'e \<Rightarrow> 'j event list \<times> exc option" where
  "put_snapshot F E e =
     (case build_json_raises F e of
        Some err \<Rightarrow> ([], Some err)
      | None \<Rightarrow> ([Put (Some (snapshot E e))], put_raises F e (Some (snapshot E e))))"

definition cleanup_raising ::
  "('e, 'j) faults \<Rightarrow> ('e, 'f, 'j) engine \<Rightarrow> 'e \<Rightarrow> 'j event list \<times> exc option" where
  "cleanup_raising F E e =
     (case put_snapshot F E e of
        (evs, Some err) \<Rightarrow> (evs, Some err)
      | (evs, None) \<Rightarrow>
          (case close_raises F e of
             Some err \<Rightarrow> (evs @ [Close], Some err)
           | None \<Rightarrow> (evs @ [Close, Put None], put_raises F (close E e) None)))"

text \<open>\<open>cleanup()\<close> followed by \<open>exit(n)\<close>.\<close>

definition cleanup_exit ::
  "('e, 'j) faults \<Rightarrow> ('e, 'f, 'j) engine \<Rightarrow> 'e \<Rightarrow> int \<Rightarrow> 'j event list \<times> ending" where
  "cleanup_exit F E e n =
     (case cleanup_raising F E e of
        (evs, Some err) \<Rightarrow> (evs, Uncaught err)
      | (evs, None) \<Rightarrow> (evs, Exit n))"

definition loop_body_raising ::
  "('e, 'j) faults \<Rightarrow> ('e, 'f, 'j) engine \<Rightarrow> args \<Rightarrow> bool \<Rightarrow> 'e \<Rightarrow>
   'j event list \<times> (ending + bool \<times> 'e)" where
  "loop_body_raising F E a done e =
     (case readfield E e of
        (Inl err, e') \<Rightarrow>
          (if err = KeyboardInterrupt then
             (case cleanup_exit F E e' 1 of
                (evs, r) \<Rightarrow> ([Readfield] @ interrupt_report @ evs, Inl r))
           else if is_Exception err then
             (case cleanup_exit F E e' 1 of
                (evs, r) \<Rightarrow> ([Readfield] @ error_report a (fdoffset E e') err @ evs, Inl r))
           else ([Readfield], Inl (Uncaught err)))
      | (Inr f, e') \<Rightarrow>
          (let done' = (if f = None then True else done)
           in if snapshot_due (fields_written E e') then
                (case put_snapshot F E e' of
                   (evs, Some err) \<Rightarrow> ([Readfield] @ evs, Inl (Uncaught err))
                 | (evs, None) \<Rightarrow> ([Readfield] @ evs, Inr (done', e')))
              else ([Readfield], Inr (done', e'))))"

definition normal_exit_raising ::
  "('e, 'j) faults \<Rightarrow> ('e, 'f, 'j) engine \<Rightarrow> 'e \<Rightarrow> 'j event list \<times> ending" where
  "normal_exit_raising F E e =
     (case cleanup_exit F E e 0 of
        (evs, r) \<Rightarrow> ([Print Stdout [Str ''saving JSON and exiting'']] @ evs, r))"

fun decode_loop_raising ::
  "nat \<Rightarrow> ('e, 'j) faults \<Rightarrow> ('e, 'f, 'j) engine \<Rightarrow> args \<Rightarrow> int \<Rightarrow> bool \<Rightarrow> 'e \<Rightarrow>
   'j event list \<times> ending option" where
  "decode_loop_raising 0 F E a req done e =
     (if loop_cond E req done e then ([], None)
      else (case normal_exit_raising F E e of (evs, r) \<Rightarrow> (evs, Some r)))"
| "decode_loop_raising (Suc n) F E a req done e =
     (if loop_cond E req done e then
        (case loop_body_raising F E a done e of
           (evs, Inl r) \<Rightarrow> (evs, Some r)
         | (evs, Inr (done', e')) \<Rightarrow>
             (case decode_loop_raising n F E a req done' e' of (evs', r) \<Rightarrow> (evs @ evs', r)))
      else (case normal_exit_raising F E e of (evs, r) \<Rightarrow> (evs, Some r)))"

definition main_raising ::
  "nat \<Rightarrow> ('e, 'j) faults \<Rightarrow> ('e, 'f, 'j) engine \<Rightarrow> 'e env \<Rightarrow> args \<Rightarrow> 'j run" where
  "main_raising fuel F E v a =
     (case make_loader v of
        Inl err \<Rightarrow>
          (case err of
             ValueError msg \<Rightarrow>
               \<lparr>sigint = installed_handler v, trace = [Print Stdout [Err err]],
                result = Some (Exit 1)\<rparr>
           | _ \<Rightarrow> \<lparr>sigint = installed_handler v, trace = [], result = Some (Uncaught err)\<rparr>)
      | Inr loader \<Rightarrow>
          (case VHSDecode v (make_config v a) of
             Inl err \<Rightarrow>
               \<lparr>sigint = SIG_IGN, trace = before_construction v a,
                result = Some (Uncaught err)\<rparr>
           | Inr e0 \<Rightarrow>
               (let (evs, e1) = seek E v a e0;
                    (evl, r) = decode_loop_raising fuel F E a (req_frames v) False e1
                in \<lparr>sigint = installed_handler v,
                    trace = before_construction v a @ [Signal (installed_handler v)] @ evs @ evl,
                    result = r\<rparr>)))"



subsection \<open>The shape of a trace with respect to the finalization\<close>


section \<open>Properties\<close>

subsection \<open>One pass through the loop body\<close>

lemma loop_body_interrupt:
  "readfield E e = (Inl KeyboardInterrupt, e') \<Longrightarrow>
   loop_body E a d e = (Readfield # interrupt_report @ fst (cleanup E e'), Inl (Exit 1))"
  by (simp add: loop_body_def)

lemma loop_body_error:
  "readfield E e = (Inl err, e') \<Longrightarrow> is_Exception err \<Longrightarrow>
   loop_body E a d e =
     (Readfield # error_report a (fdoffset E e') err @ fst (cleanup E e'), Inl (Exit 1))"
  by (cases err) (simp_all add: loop_body_def)

lemma loop_body_uncaught:
  "readfield E e = (Inl err, e') \<Longrightarrow> \<not> is_Exception err \<Longrightarrow> err \<noteq> KeyboardInterrupt \<Longrightarrow>
   loop_body E a d e = ([Readfield], Inl (Uncaught err))"
  by (simp add: loop_body_def)

lemma loop_body_returned:
  "readfield E e = (Inr f, e') \<Longrightarrow>
   loop_body E a d e =
     (Readfield # (if snapshot_due (fields_written E e') then [Put (Some (snapshot E e'))] else []),
      Inr (d \<or> f = None, e'))"
  by (cases f) (simp_all add: loop_body_def)

lemma no_final_append [simp]: "no_final (xs @ ys) = (no_final xs \<and> no_final ys)"
  by (auto simp: no_final_def)

lemma no_final_Nil [simp]: "no_final []"
  by (simp add: no_final_def)

lemma loop_body_cases:
  obtains (interrupt) e' where "readfield E e = (Inl KeyboardInterrupt, e')"
      "loop_body E a d e = (Readfield # interrupt_report @ fst (cleanup E e'), Inl (Exit 1))"
  | (error) err e' where "readfield E e = (Inl err, e')" "is_Exception err"
      "loop_body E a d e =
         (Readfield # error_report a (fdoffset E e') err @ fst (cleanup E e'), Inl (Exit 1))"
  | (uncaught) err e' where "readfield E e = (Inl err, e')" "\<not> is_Exception err"
      "err \<noteq> KeyboardInterrupt" "loop_body E a d e = ([Readfield], Inl (Uncaught err))"
  | (returned) f e' where "readfield E e = (Inr f, e')"
      "loop_body E a d e =
         (Readfield # (if snapshot_due (fields_written E e') then [Put (Some (snapshot E e'))] else []),
          Inr (d \<or> f = None, e'))"
proof (cases "readfield E e")
  case (Pair r e')
  show thesis
  proof (cases r)
    case (Inl err)
    show thesis
    proof (cases "err = KeyboardInterrupt")
      case True
      with Pair Inl show thesis using interrupt loop_body_interrupt by metis
    next
      case False
      show thesis
      proof (cases "is_Exception err")
        case True
        with Pair Inl show thesis using error loop_body_error by metis
      next
        case notex: False
        with Pair Inl False show thesis using uncaught loop_body_uncaught by metis
      qed
    qed
  next
    case (Inr f)
    with Pair show thesis using returned loop_body_returned by metis
  qed
qed

lemma no_final_reports [simp]:
  "no_final (interrupt_report :: 'j event list)"
  "no_final (error_report a off err :: 'j event list)"
  by (simp_all add: no_final_def interrupt_report_def error_report_def)

lemma decode_loop_fuel:
  "snd (decode_loop n E a req d e) \<noteq> None \<Longrightarrow>
   decode_loop (n + m) E a req d e = decode_loop n E a req d e"
proof (induction n arbitrary: d e)
  case 0
  then show ?case by (cases m) (auto split: if_splits)
next
  case (Suc n)
  show ?case
  proof (cases "loop_cond E req d e")
    case False
    then show ?thesis by simp
  next
    case True
    obtain evs r where lb: "loop_body E a d e = (evs, r)" by (cases "loop_body E a d e")
    show ?thesis
    proof (cases r)
      case (Inl x)
      with True lb show ?thesis by simp
    next
      case (Inr p)
      obtain d' e' where p: "p = (d', e')" by (cases p)
      from Suc.prems True lb Inr p have "snd (decode_loop n E a req d' e') \<noteq> None"
        by (simp split: prod.splits)
      then have "decode_loop (n + m) E a req d' e' = decode_loop n E a req d' e'"
        by (rule Suc.IH)
      with True lb Inr p show ?thesis by simp
    qed
  qed
qed

lemma normal_exit_shape:
  "\<exists>pre e'. normal_exit E e = pre @ fst (cleanup E e') \<and> no_final pre"
proof -
  have "no_final [Print Stdout [Str ''saving JSON and exiting'']]"
    by (simp add: no_final_def)
  then show ?thesis unfolding normal_exit_def by blast
qed

lemma decode_loop_shape:
  "decode_loop n E a req d e = (evs, r) \<Longrightarrow>
   (case r of
      Some (Exit c) \<Rightarrow> \<exists>pre e'. evs = pre @ fst (cleanup E e') \<and> no_final pre
    | _ \<Rightarrow> no_final evs)"
proof (induction n arbitrary: d e evs r)
  case 0
  show ?case
  proof (cases "loop_cond E req d e")
    case False
    with 0 have "evs = normal_exit E e" "r = Some (Exit 0)" by auto
    then show ?thesis using normal_exit_shape by auto
  next
    case True
    with 0 show ?thesis by auto
  qed
next
  case (Suc n)
  show ?case
  proof (cases "loop_cond E req d e")
    case False
    with Suc.prems have "evs = normal_exit E e" "r = Some (Exit 0)" by auto
    then show ?thesis using normal_exit_shape by auto
  next
    case True
    show ?thesis
    proof (cases rule: loop_body_cases[of E e a d])
      case (interrupt e')
      with True Suc.prems have "evs = (Readfield # interrupt_report) @ fst (cleanup E e')" "r = Some (Exit 1)"
        by auto
      moreover have "no_final (Readfield # interrupt_report)"
        by (simp add: no_final_def interrupt_report_def)
      ultimately have "\<exists>pre e'. evs = pre @ fst (cleanup E e') \<and> no_final pre" "r = Some (Exit 1)"
        by blast+
      then show ?thesis by simp
    next
      case (error err e')
      with True Suc.prems have "evs = (Readfield # error_report a (fdoffset E e') err) @ fst (cleanup E e')" "r = Some (Exit 1)"
        by auto
      moreover have "no_final (Readfield # error_report a (fdoffset E e') err)"
        by (simp add: no_final_def error_report_def)
      ultimately have "\<exists>pre e'. evs = pre @ fst (cleanup E e') \<and> no_final pre" "r = Some (Exit 1)"
        by blast+
      then show ?thesis by simp
    next
      case (uncaught err e')
      with True Suc.prems show ?thesis by (auto simp: no_final_def)
    next
      case (returned f e')
      let ?evs1 = "Readfield # (if snapshot_due (fields_written E e') then [Put (Some (snapshot E e'))] else [])"
      obtain evs' where rec: "decode_loop n E a req (d \<or> f = None) e' = (evs', r)" and evs: "evs = ?evs1 @ evs'"
        using True Suc.prems returned by (auto split: prod.splits)
      have nf: "no_final ?evs1" by (simp add: no_final_def)
      from Suc.IH[OF rec] show ?thesis
      proof (cases r)
        case None
        with Suc.IH[OF rec] nf evs show ?thesis by (simp del: append.simps)
      next
        case (Some x)
        show ?thesis
        proof (cases x)
          case (Exit c)
          with Some Suc.IH[OF rec] obtain pre e'' where "evs' = pre @ fst (cleanup E e'')" "no_final pre"
            by auto
          with evs nf have "evs = (?evs1 @ pre) @ fst (cleanup E e'')" "no_final (?evs1 @ pre)"
            by (simp_all del: append.simps)
          then have "\<exists>pre e'. evs = pre @ fst (cleanup E e') \<and> no_final pre" by blast
          with Some Exit show ?thesis by simp
        next
          case (Uncaught x2)
          with Some Suc.IH[OF rec] nf evs show ?thesis by (simp del: append.simps)
        qed
      qed
    qed
  qed
qed

subsection \<open>The steps of main before the loop\<close>

lemma main_loader_ok:
  assumes "make_loader v = Inr l" and "VHSDecode v (make_config v a) = Inr e0"
  shows "main fuel E v a =
     \<lparr>sigint = installed_handler v,
      trace = before_construction v a @ [Signal (installed_handler v)] @ fst (seek E v a e0) @
              fst (decode_loop fuel E a (req_frames v) False (snd (seek E v a e0))),
      result = snd (decode_loop fuel E a (req_frames v) False (snd (seek E v a e0)))\<rparr>"
  using assms by (simp add: main_def split: prod.splits)

lemma main_constructor_raises:
  assumes "make_loader v = Inr l" and "VHSDecode v (make_config v a) = Inl err"
  shows "main fuel E v a =
     \<lparr>sigint = SIG_IGN, trace = before_construction v a, result = Some (Uncaught err)\<rparr>"
  using assms by (simp add: main_def)

lemma before_construction_prefix:
  "make_loader v = Inr l \<Longrightarrow> \<exists>post. trace (main fuel E v a) = before_construction v a @ post"
  by (cases "VHSDecode v (make_config v a)")
     (simp_all add: main_loader_ok main_constructor_raises)

subsection \<open>Failure of the loader\<close>

text \<open>
  C8: when \<open>make_loader\<close> raises \<open>ValueError\<close>, \<open>main\<close> prints the error and calls
  \<open>exit(1)\<close> at once. Nothing else has happened by then: SIGINT has its handler of
  before, the decoder has not been constructed, the writer thread has not been started,
  and neither a message has been put on the queue nor the decoder closed, so no
  finalization has run.
\<close>

theorem loader_value_error_exits_first:
  assumes "make_loader v = Inl (ValueError msg)"
  shows "main fuel E v a =
           \<lparr>sigint = installed_handler v,
            trace = [Print Stdout [Err (ValueError msg)]],
            result = Some (Exit 1)\<rparr>
         \<and> (\<forall>c. New_VHSDecode c \<notin> set (trace (main fuel E v a)))
         \<and> Jsondump_thread \<notin> set (trace (main fuel E v a))
         \<and> (\<forall>m. Put m \<notin> set (trace (main fuel E v a)))
         \<and> Close \<notin> set (trace (main fuel E v a))"
  using assms by (simp add: main_def)

theorem loader_value_error_exits_first_witness:
  "make_loader (example_env\<lparr>make_loader := Inl (ValueError ''bad input'')\<rparr>)
     = Inl (ValueError ''bad input'')
   \<and> main 3 (script_engine [Inr (Some 0)])
        (example_env\<lparr>make_loader := Inl (ValueError ''bad input'')\<rparr>) example_args =
       \<lparr>sigint = default_int_handler,
        trace = [Print Stdout [Err (ValueError ''bad input'')]],
        result = Some (Exit 1)\<rparr>"
  using loader_value_error_exits_first
     [of "example_env\<lparr>make_loader := Inl (ValueError ''bad input'')\<rparr>" "''bad input''" 3
         "script_engine [Inr (Some 0)]" example_args]
  by (simp add: example_env_def)

subsection \<open>Unrolling the loop\<close>

lemma decode_loop_stop:
  "\<not> loop_cond E req d e \<Longrightarrow> decode_loop n E a req d e = (normal_exit E e, Some (Exit 0))"
  by (cases n) simp_all

lemma decode_loop_done: "decode_loop n E a req True e = (normal_exit E e, Some (Exit 0))"
  by (rule decode_loop_stop) (simp add: loop_cond_def)

lemma decode_loop_returned:
  assumes "loop_cond E req d e" and "readfield E e = (Inr f, e')"
  shows "decode_loop (Suc n) E a req d e =
           ((Readfield #
              (if snapshot_due (fields_written E e') then [Put (Some (snapshot E e'))] else [])) @
            fst (decode_loop n E a req (d \<or> f = None) e'),
            snd (decode_loop n E a req (d \<or> f = None) e'))"
  using assms by (simp add: loop_body_returned split: prod.splits)

lemma decode_loop_raised:
  assumes "loop_cond E req d e" and "loop_body E a d e = (evs, Inl r)"
  shows "decode_loop (Suc n) E a req d e = (evs, Some r)"
  using assms by simp

lemma loop_body_events: "\<forall>ev \<in> set (fst (loop_body E a d e)). loop_event ev"
  by (cases rule: loop_body_cases[of E e a d])
     (auto simp: interrupt_report_def error_report_def cleanup_def)

lemma normal_exit_events: "\<forall>ev \<in> set (normal_exit E e). loop_event ev"
  by (simp add: normal_exit_def cleanup_def)

lemma decode_loop_events: "\<forall>ev \<in> set (fst (decode_loop n E a req d e)). loop_event ev"
proof (induction n arbitrary: d e)
  case 0
  then show ?case using normal_exit_events[of E e] by simp
next
  case (Suc n)
  show ?case
  proof (cases "loop_cond E req d e")
    case False
    then show ?thesis using normal_exit_events[of E e] by simp
  next
    case True
    obtain evs r where lb: "loop_body E a d e = (evs, r)" by (cases "loop_body E a d e")
    have evs: "\<forall>ev \<in> set evs. loop_event ev" using loop_body_events[of E a d e] lb by simp
    show ?thesis
    proof (cases r)
      case (Inl x)
      with True lb evs show ?thesis by simp
    next
      case (Inr p)
      obtain d' e' where p: "p = (d', e')" by (cases p)
      have "fst (decode_loop (Suc n) E a req d e) = evs @ fst (decode_loop n E a req d' e')"
        using True lb Inr p by (simp split: prod.splits)
      with evs Suc.IH[of d' e'] show ?thesis by auto
    qed
  qed
qed

subsection \<open>The disposition of SIGINT\<close>

lemma signals_append: "signals (xs @ ys) = signals xs @ signals ys"
  by (induction xs rule: signals.induct) simp_all

lemma signals_loop_events: "\<forall>ev \<in> set evs. loop_event ev \<Longrightarrow> signals evs = []"
  by (induction evs rule: signals.induct) simp_all

lemma signals_seek: "signals (fst (seek E v a e)) = []"
  by (simp add: seek_def Let_def split: prod.splits)

lemma before_construction_split:
  "before_construction v a = Signal SIG_IGN # before_call v a @ [New_VHSDecode (make_config v a)]"
  "signals (before_call v a) = []"
  by (simp_all add: before_construction_def before_call_def butlast_append)

text \<open>
  C5, as the code has it: \<open>main\<close> sets SIGINT to \<open>SIG_IGN\<close>, calls the constructor and,
  when the constructor returns, installs again the handler that \<open>signal.signal\<close> had
  returned; these are the only two changes of the disposition in a run. When the
  constructor raises, the exception leaves \<open>main\<close> with SIGINT still ignored: there is
  no \<open>try\<close>/\<open>finally\<close> around the construction.
\<close>

theorem sigint_restored_after_construction:
  assumes "make_loader v = Inr l"
  shows "(VHSDecode v (make_config v a) = Inr e0 \<longrightarrow>
            sigint (main fuel E v a) = installed_handler v
            \<and> signals (trace (main fuel E v a)) = [SIG_IGN, installed_handler v]
            \<and> (\<exists>mid post. trace (main fuel E v a) =
                  Signal SIG_IGN # mid @ New_VHSDecode (make_config v a) #
                  Signal (installed_handler v) # post
                  \<and> signals mid = [] \<and> signals post = []))
       \<and> (VHSDecode v (make_config v a) = Inl err \<longrightarrow>
            sigint (main fuel E v a) = SIG_IGN
            \<and> signals (trace (main fuel E v a)) = [SIG_IGN]
            \<and> result (main fuel E v a) = Some (Uncaught err))"
proof (intro conjI impI)
  assume ok: "VHSDecode v (make_config v a) = Inr e0"
  let ?post = "fst (seek E v a e0) @
               fst (decode_loop fuel E a (req_frames v) False (snd (seek E v a e0)))"
  have m: "main fuel E v a =
     \<lparr>sigint = installed_handler v,
      trace = before_construction v a @ [Signal (installed_handler v)] @ ?post,
      result = snd (decode_loop fuel E a (req_frames v) False (snd (seek E v a e0)))\<rparr>"
    using main_loader_ok[OF assms ok] by simp
  have p: "signals ?post = []"
    by (simp add: signals_append signals_seek signals_loop_events[OF decode_loop_events])
  show "sigint (main fuel E v a) = installed_handler v" using m by simp
  have t: "trace (main fuel E v a) =
             Signal SIG_IGN # before_call v a @ New_VHSDecode (make_config v a) #
             Signal (installed_handler v) # ?post"
    using m by (simp add: before_construction_split(1))
  show "signals (trace (main fuel E v a)) = [SIG_IGN, installed_handler v]"
    unfolding t using p by (simp add: signals_append before_construction_split(2))
  show "\<exists>mid post. trace (main fuel E v a) =
          Signal SIG_IGN # mid @ New_VHSDecode (make_config v a) #
          Signal (installed_handler v) # post \<and> signals mid = [] \<and> signals post = []"
    using t p before_construction_split(2)[of v a] by blast
next
  assume bad: "VHSDecode v (make_config v a) = Inl err"
  have m: "main fuel E v a =
     \<lparr>sigint = SIG_IGN, trace = before_construction v a, result = Some (Uncaught err)\<rparr>"
    using main_constructor_raises[OF assms bad] .
  show "sigint (main fuel E v a) = SIG_IGN" using m by simp
  show "signals (trace (main fuel E v a)) = [SIG_IGN]"
    using m by (simp add: before_construction_split signals_append)
  show "result (main fuel E v a) = Some (Uncaught err)" using m by simp
qed

theorem sigint_restored_after_construction_witness:
  "make_loader example_env = Inr ()
   \<and> VHSDecode example_env (make_config example_env example_args) = Inr (0, 0)
   \<and> sigint (main 2 (script_engine []) example_env example_args) = default_int_handler
   \<and> signals (trace (main 2 (script_engine []) example_env example_args))
       = [SIG_IGN, default_int_handler]
   \<and> VHSDecode failing_env (make_config failing_env example_args) = Inl (RuntimeError ''no decoder'')
   \<and> sigint (main 2 (script_engine []) failing_env example_args) = SIG_IGN"
proof -
  have l: "make_loader example_env = Inr ()" by (simp add: example_env_def)
  have l': "make_loader failing_env = Inr ()" by (simp add: example_env_def failing_env_def)
  have c: "VHSDecode example_env (make_config example_env example_args) = Inr (0, 0)"
    by (simp add: example_env_def)
  have c': "VHSDecode failing_env (make_config failing_env example_args) = Inl (RuntimeError ''no decoder'')"
    by (simp add: example_env_def failing_env_def)
  have i: "installed_handler example_env = default_int_handler" by (simp add: example_env_def)
  show ?thesis
    using sigint_restored_after_construction[OF l, of example_args "(0, 0)" 2 "script_engine []"]
          sigint_restored_after_construction[OF l', of example_args _ 2 "script_engine []" "RuntimeError ''no decoder''"]
          l c c' i
    by simp
qed

text \<open>
  The claim that the handler is restored on every path, also when the construction
  raises, fails: with a constructor that raises, the run ends with SIGINT ignored,
  although \<open>default_int_handler\<close> was installed before.
\<close>

theorem sigint_not_restored_counterexample:
  "installed_handler failing_env = default_int_handler
   \<and> sigint (main 2 (script_engine []) failing_env example_args) = SIG_IGN
   \<and> signals (trace (main 2 (script_engine []) failing_env example_args)) = [SIG_IGN]
   \<and> result (main 2 (script_engine []) failing_env example_args)
       = Some (Uncaught (RuntimeError ''no decoder''))"
  by code_simp

subsection \<open>When the loop enqueues a snapshot\<close>

lemma cadence_values:
  "1 \<le> w \<and> w \<le> 99 \<longrightarrow> snapshot_due w"
  "100 \<le> w \<and> w \<le> 1999 \<longrightarrow> (snapshot_due w \<longleftrightarrow> w \<in> {500, 1000, 1500})"
  unfolding snapshot_due_def by (simp, auto) 

lemma put_in_loop_body:
  assumes "readfield E e = (Inr f, e')"
  shows "Put m \<in> set (fst (loop_body E a d e)) \<longleftrightarrow>
           snapshot_due (fields_written E e') \<and> m = Some (snapshot E e')"
  using assms by (auto simp: loop_body_returned)

text \<open>
  C4, as the code has it: on a pass through the loop body in which \<open>readfield\<close> returns,
  a snapshot is built and enqueued if and only if \<open>fields_written\<close> is below 100 or a
  multiple of 500, and nothing else is enqueued on that pass. So for the values 1 to 99
  of \<open>fields_written\<close> a snapshot is enqueued at every value, and for the values 100 to
  1999 only at 500, 1000 and 1500.
\<close>

theorem snapshot_cadence:
  assumes "readfield E e = (Inr f, e')"
  shows "fst (loop_body E a d e) =
           Readfield # (if fields_written E e' < 100 \<or> fields_written E e' mod 500 = 0
                        then [Put (Some (snapshot E e'))] else [])
         \<and> (Put (Some (snapshot E e')) \<in> set (fst (loop_body E a d e)) \<longleftrightarrow>
              fields_written E e' < 100 \<or> fields_written E e' mod 500 = 0)
         \<and> (1 \<le> fields_written E e' \<and> fields_written E e' \<le> 99 \<longrightarrow>
              Put (Some (snapshot E e')) \<in> set (fst (loop_body E a d e)))
         \<and> (100 \<le> fields_written E e' \<and> fields_written E e' \<le> 1999 \<longrightarrow>
              (Put (Some (snapshot E e')) \<in> set (fst (loop_body E a d e)) \<longleftrightarrow>
               fields_written E e' \<in> {500, 1000, 1500}))"
proof -
  have p: "Put (Some (snapshot E e')) \<in> set (fst (loop_body E a d e)) \<longleftrightarrow>
           snapshot_due (fields_written E e')"
    using put_in_loop_body[OF assms, of "Some (snapshot E e')" a d] by simp
  have 1: "fst (loop_body E a d e) =
           Readfield # (if fields_written E e' < 100 \<or> fields_written E e' mod 500 = 0
                        then [Put (Some (snapshot E e'))] else [])"
    using assms by (simp add: loop_body_returned snapshot_due_def)
  have 2: "Put (Some (snapshot E e')) \<in> set (fst (loop_body E a d e)) \<longleftrightarrow>
              fields_written E e' < 100 \<or> fields_written E e' mod 500 = 0"
    using p by (simp add: snapshot_due_def)
  have 3: "1 \<le> fields_written E e' \<and> fields_written E e' \<le> 99 \<longrightarrow>
              Put (Some (snapshot E e')) \<in> set (fst (loop_body E a d e))"
    using p cadence_values(1)[of "fields_written E e'"] by blast
  have 4: "100 \<le> fields_written E e' \<and> fields_written E e' \<le> 1999 \<longrightarrow>
              (Put (Some (snapshot E e')) \<in> set (fst (loop_body E a d e)) \<longleftrightarrow>
               fields_written E e' \<in> {500, 1000, 1500})"
    using p cadence_values(2)[of "fields_written E e'"] by blast
  from 1 2 3 4 show ?thesis by blast
qed

theorem snapshot_cadence_witness:
  "readfield (script_engine [Inr (Some 0)]) (0, 499) = (Inr (Some 0), (1, 500))
   \<and> 100 \<le> fields_written (script_engine [Inr (Some 0)]) (1, 500)
   \<and> fields_written (script_engine [Inr (Some 0)]) (1, 500) \<le> 1999
   \<and> fst (loop_body (script_engine [Inr (Some 0)]) example_args False (0, 499))
       = [Readfield, Put (Some 500)]
   \<and> readfield (script_engine [Inr (Some 0)]) (0, 41) = (Inr (Some 0), (1, 42))
   \<and> Put (Some 42) \<in> set (fst (loop_body (script_engine [Inr (Some 0)]) example_args False (0, 41)))"
proof -
  have r: "readfield (script_engine [Inr (Some 0)]) (0, 499) = (Inr (Some 0), (1, 500))"
    by code_simp
  have r': "readfield (script_engine [Inr (Some 0)]) (0, 41) = (Inr (Some 0), (1, 42))"
    by code_simp
  have w: "fields_written (script_engine [Inr (Some 0)]) (1, 500) = 500"
    "fields_written (script_engine [Inr (Some 0)]) (1, 42) = 42"
    by (simp_all add: script_engine_def)
  have s: "snapshot (script_engine [Inr (Some 0)]) (1, 500) = 500"
    "snapshot (script_engine [Inr (Some 0)]) (1, 42) = 42"
    by (simp_all add: script_engine_def snapshot_def)
  show ?thesis
    using snapshot_cadence[OF r, of example_args False] snapshot_cadence[OF r', of example_args False]
      r r' w s
    by simp
qed

text \<open>
  The value 100 is not below 100 and not a multiple of 500: on the pass that takes
  \<open>fields_written\<close> from 99 to 100 nothing is enqueued, so the claim that every value
  from 1 to 100 gets a snapshot fails at 100.
\<close>

theorem snapshot_at_100_counterexample:
  "readfield (script_engine [Inr (Some 0)]) (0, 99) = (Inr (Some 0), (1, 100))
   \<and> fields_written (script_engine [Inr (Some 0)]) (1, 100) = 100
   \<and> fst (loop_body (script_engine [Inr (Some 0)]) example_args False (0, 99)) = [Readfield]"
  by code_simp

subsection \<open>The pass in which readfield returns None\<close>

lemma decode_loop_terminal:
  assumes "loop_cond E req d e" and "readfield E e = (Inr None, e')"
  shows "decode_loop (Suc n) E a req d e =
           ((Readfield #
              (if snapshot_due (fields_written E e') then [Put (Some (snapshot E e'))] else [])) @
            normal_exit E e', Some (Exit 0))"
  using decode_loop_returned[OF assms, of n a] by (simp add: decode_loop_done)

text \<open>
  C10: on the pass in which \<open>readfield\<close> returns \<open>None\<close>, \<open>done\<close> is set and the test
  for a snapshot is made all the same, on the value \<open>fields_written\<close> has then. When a
  field was returned on the pass before and \<open>None\<close> leaves \<open>fields_written\<close> as it
  was, at a value for which a snapshot is due, the loop enqueues a snapshot for that
  value on both passes (and the finalization enqueues a third).
\<close>

theorem snapshot_on_terminal_marker:
  assumes "readfield E e = (Inr None, e')"
  shows "loop_body E a d e =
           (Readfield # (if fields_written E e' < 100 \<or> fields_written E e' mod 500 = 0
                         then [Put (Some (snapshot E e'))] else []),
            Inr (True, e'))
         \<and> (loop_cond E req False e0 \<and> readfield E e0 = (Inr (Some f), e) \<and>
             loop_cond E req False e \<and> fields_written E e' = fields_written E e \<and>
             snapshot_due (fields_written E e) \<longrightarrow>
             decode_loop (Suc (Suc n)) E a req False e0 =
               ([Readfield, Put (Some (snapshot E e)), Readfield, Put (Some (snapshot E e'))] @
                normal_exit E e', Some (Exit 0)))"
proof (intro conjI impI)
  show "loop_body E a d e =
           (Readfield # (if fields_written E e' < 100 \<or> fields_written E e' mod 500 = 0
                         then [Put (Some (snapshot E e'))] else []),
            Inr (True, e'))"
    using assms by (simp add: loop_body_returned snapshot_due_def)
next
  assume h: "loop_cond E req False e0 \<and> readfield E e0 = (Inr (Some f), e) \<and>
             loop_cond E req False e \<and> fields_written E e' = fields_written E e \<and>
             snapshot_due (fields_written E e)"
  then have c0: "loop_cond E req False e0" and r0: "readfield E e0 = (Inr (Some f), e)"
    and c1: "loop_cond E req False e" and same: "fields_written E e' = fields_written E e"
    and due: "snapshot_due (fields_written E e)"
    by simp_all
  have second: "decode_loop (Suc n) E a req False e =
           ([Readfield, Put (Some (snapshot E e'))] @ normal_exit E e', Some (Exit 0))"
    using decode_loop_terminal[OF c1 assms, of n a] same due by simp
  show "decode_loop (Suc (Suc n)) E a req False e0 =
               ([Readfield, Put (Some (snapshot E e)), Readfield, Put (Some (snapshot E e'))] @
                normal_exit E e', Some (Exit 0))"
    using decode_loop_returned[OF c0 r0, of "Suc n" a] second due by simp
qed

theorem snapshot_on_terminal_marker_witness:
  "readfield (script_engine [Inr (Some 0)]) (1, 1) = (Inr None, (1, 1))
   \<and> loop_cond (script_engine [Inr (Some 0)]) 5 False (0, 0)
   \<and> readfield (script_engine [Inr (Some 0)]) (0, 0) = (Inr (Some 0), (1, 1))
   \<and> loop_cond (script_engine [Inr (Some 0)]) 5 False (1, 1)
   \<and> snapshot_due (fields_written (script_engine [Inr (Some 0)]) (1, 1))
   \<and> loop_body (script_engine [Inr (Some 0)]) example_args False (1, 1)
       = ([Readfield, Put (Some 1)], Inr (True, (1, 1)))
   \<and> decode_loop 2 (script_engine [Inr (Some 0)]) example_args 5 False (0, 0)
       = ([Readfield, Put (Some 1), Readfield, Put (Some 1),
           Print Stdout [Str ''saving JSON and exiting''], Put (Some 1), Close, Put None],
          Some (Exit 0))"
proof -
  let ?E = "script_engine [Inr (Some 0)]"
  have r: "readfield ?E (1, 1) = (Inr None, (1, 1))" by code_simp
  have r0: "readfield ?E (0, 0) = (Inr (Some 0), (1, 1))" by code_simp
  have c0: "loop_cond ?E 5 False (0, 0)" by code_simp
  have c1: "loop_cond ?E 5 False (1, 1)" by code_simp
  have d: "snapshot_due (fields_written ?E (1, 1))" by code_simp
  have w: "fields_written ?E (1, 1) = 1" by code_simp
  have s: "snapshot ?E (1, 1) = 1" by code_simp
  have x: "normal_exit ?E (1, 1) =
     [Print Stdout [Str ''saving JSON and exiting''], Put (Some 1), Close, Put None]"
    by code_simp
  have two: "Suc (Suc 0) = 2" by simp
  show ?thesis
    using snapshot_on_terminal_marker[OF r, of example_args False 5 "(0, 0)" 0 0]
      r r0 c0 c1 d w s x two
    by simp
qed

subsection \<open>Termination of the loop\<close>

lemma steady_run:
  assumes steady: "\<forall>e. fields_written E e < N * 2 \<longrightarrow>
             (\<exists>f e'. readfield E e = (Inr (Some f), e') \<and>
                      fields_written E e' = fields_written E e + 1)"
  shows "nat (N * 2 - fields_written E e) = k \<Longrightarrow>
         \<exists>evs e1. decode_loop k E a N False e = (evs @ normal_exit E e1, Some (Exit 0))
            \<and> count_list evs Readfield = k
            \<and> (fields_written E e \<le> N * 2 \<longrightarrow> fields_written E e1 = N * 2)"
proof (induction k arbitrary: e)
  case 0
  then have "\<not> loop_cond E N False e" by (simp add: loop_cond_def)
  then have "decode_loop 0 E a N False e = ([] @ normal_exit E e, Some (Exit 0))"
    by simp
  moreover from 0 have "fields_written E e \<le> N * 2 \<longrightarrow> fields_written E e = N * 2"
    by simp
  ultimately show ?case by (metis count_list.simps(1))
next
  case (Suc k)
  then have lt: "fields_written E e < N * 2" by simp
  then have c: "loop_cond E N False e" by (simp add: loop_cond_def)
  from steady lt obtain f e' where r: "readfield E e = (Inr (Some f), e')"
    and w: "fields_written E e' = fields_written E e + 1"
    by blast
  from Suc.prems w have "nat (N * 2 - fields_written E e') = k" by simp
  from Suc.IH[OF this] obtain evs e1
    where run: "decode_loop k E a N False e' = (evs @ normal_exit E e1, Some (Exit 0))"
      and cnt: "count_list evs Readfield = k"
      and fin: "fields_written E e' \<le> N * 2 \<longrightarrow> fields_written E e1 = N * 2"
    by blast
  let ?first = "Readfield #
    (if snapshot_due (fields_written E e') then [Put (Some (snapshot E e'))] else [])"
  have "decode_loop (Suc k) E a N False e = ((?first @ evs) @ normal_exit E e1, Some (Exit 0))"
    using decode_loop_returned[OF c r, of k a] run by simp
  moreover have "count_list (?first @ evs) Readfield = Suc k"
    using cnt by simp
  moreover have "fields_written E e \<le> N * 2 \<longrightarrow> fields_written E e1 = N * 2"
    using fin w lt by simp
  ultimately show ?case by blast
qed

lemma steady_running:
  assumes steady: "\<forall>e. fields_written E e < N * 2 \<longrightarrow>
             (\<exists>f e'. readfield E e = (Inr (Some f), e') \<and>
                      fields_written E e' = fields_written E e + 1)"
  shows "n < nat (N * 2 - fields_written E e) \<Longrightarrow> snd (decode_loop n E a N False e) = None"
proof (induction n arbitrary: e)
  case 0
  then have "loop_cond E N False e" by (simp add: loop_cond_def)
  then show ?case by simp
next
  case (Suc n)
  then have lt: "fields_written E e < N * 2" by simp
  then have c: "loop_cond E N False e" by (simp add: loop_cond_def)
  from steady lt obtain f e' where r: "readfield E e = (Inr (Some f), e')"
    and w: "fields_written E e' = fields_written E e + 1"
    by blast
  from Suc.prems w have "n < nat (N * 2 - fields_written E e')" by simp
  from Suc.IH[OF this] show ?case
    using decode_loop_returned[OF c r, of n a] by simp
qed

text \<open>
  C3: let \<open>N\<close> be the number of requested frames. If, as long as \<open>fields_written\<close> is
  below \<open>2N\<close>, every \<open>readfield\<close> returns a field and adds one to \<open>fields_written\<close>, then
  the loop started with \<open>fields_written = k\<close> ends after exactly \<open>2N - k\<close> calls of
  \<open>readfield\<close> (none when \<open>k\<close> is \<open>2N\<close> or more), with \<open>fields_written = 2N\<close>, through
  the normal exit with status 0: fewer calls do not end it, and it makes no more. And
  on any pass, whatever \<open>fields_written\<close> is, a \<open>readfield\<close> that returns \<open>None\<close> ends
  the loop after that pass, again through the normal exit with status 0 and with no
  further call of \<open>readfield\<close>.
\<close>

theorem loop_terminates:
  "((\<forall>e. fields_written E e < N * 2 \<longrightarrow>
        (\<exists>f e'. readfield E e = (Inr (Some f), e') \<and>
                 fields_written E e' = fields_written E e + 1)) \<longrightarrow>
     (\<exists>evs e1. decode_loop (nat (N * 2 - fields_written E e0)) E a N False e0 =
                   (evs @ normal_exit E e1, Some (Exit 0))
         \<and> count_list evs Readfield = nat (N * 2 - fields_written E e0)
         \<and> (fields_written E e0 \<le> N * 2 \<longrightarrow> fields_written E e1 = N * 2))
     \<and> (\<forall>n < nat (N * 2 - fields_written E e0). snd (decode_loop n E a N False e0) = None)
     \<and> (\<forall>n. decode_loop (nat (N * 2 - fields_written E e0) + n) E a N False e0 =
              decode_loop (nat (N * 2 - fields_written E e0)) E a N False e0))
   \<and> (loop_cond E N d e \<and> readfield E e = (Inr None, e') \<longrightarrow>
        decode_loop (Suc m) E a N d e =
          ((Readfield #
             (if snapshot_due (fields_written E e') then [Put (Some (snapshot E e'))] else [])) @
           [Print Stdout [Str ''saving JSON and exiting'']] @ fst (cleanup E e'),
           Some (Exit 0)))"
proof (intro conjI impI allI)
  assume steady: "\<forall>e. fields_written E e < N * 2 \<longrightarrow>
        (\<exists>f e'. readfield E e = (Inr (Some f), e') \<and>
                 fields_written E e' = fields_written E e + 1)"
  show "\<exists>evs e1. decode_loop (nat (N * 2 - fields_written E e0)) E a N False e0 =
                   (evs @ normal_exit E e1, Some (Exit 0))
         \<and> count_list evs Readfield = nat (N * 2 - fields_written E e0)
         \<and> (fields_written E e0 \<le> N * 2 \<longrightarrow> fields_written E e1 = N * 2)"
    using steady_run[OF steady refl] .
  then have "snd (decode_loop (nat (N * 2 - fields_written E e0)) E a N False e0) \<noteq> None"
    by auto
  then show "decode_loop (nat (N * 2 - fields_written E e0) + n) E a N False e0 =
              decode_loop (nat (N * 2 - fields_written E e0)) E a N False e0" for n
    by (rule decode_loop_fuel)
  fix n assume "n < nat (N * 2 - fields_written E e0)"
  then show "snd (decode_loop n E a N False e0) = None"
    using steady_running[OF steady] by blast
next
  assume "loop_cond E N d e \<and> readfield E e = (Inr None, e')"
  then have c: "loop_cond E N d e" and r: "readfield E e = (Inr None, e')" by simp_all
  show "decode_loop (Suc m) E a N d e =
          ((Readfield #
             (if snapshot_due (fields_written E e') then [Put (Some (snapshot E e'))] else [])) @
           [Print Stdout [Str ''saving JSON and exiting'']] @ fst (cleanup E e'),
           Some (Exit 0))"
    using decode_loop_terminal[OF c r, of m a] by (simp add: normal_exit_def)
qed

theorem loop_terminates_witness:
  "(\<exists>evs e1. decode_loop 4 endless_engine example_args 2 False 0 =
                   (evs @ normal_exit endless_engine e1, Some (Exit 0))
         \<and> count_list evs Readfield = 4 \<and> fields_written endless_engine e1 = 4)
   \<and> snd (decode_loop 3 endless_engine example_args 2 False 0) = None
   \<and> decode_loop 4 endless_engine example_args 2 False 0 =
        ([Readfield, Put (Some 1), Readfield, Put (Some 2), Readfield, Put (Some 3),
          Readfield, Put (Some 4),
          Print Stdout [Str ''saving JSON and exiting''], Put (Some 4), Close, Put None],
         Some (Exit 0))
   \<and> loop_cond (script_engine [Inr (Some 0)]) 7 False (1, 1)
   \<and> readfield (script_engine [Inr (Some 0)]) (1, 1) = (Inr None, (1, 1))
   \<and> decode_loop 1 (script_engine [Inr (Some 0)]) example_args 7 False (1, 1) =
        ([Readfield, Put (Some 1),
          Print Stdout [Str ''saving JSON and exiting''], Put (Some 1), Close, Put None],
         Some (Exit 0))"
proof -
  let ?S = "script_engine [Inr (Some 0)]"
  have steady: "\<forall>e. fields_written endless_engine e < 2 * 2 \<longrightarrow>
        (\<exists>f e'. readfield endless_engine e = (Inr (Some f), e') \<and>
                 fields_written endless_engine e' = fields_written endless_engine e + 1)"
    by (simp add: endless_engine_def)
  have k: "nat (2 * 2 - fields_written endless_engine 0) = 4"
    by (simp add: endless_engine_def)
  have w: "fields_written endless_engine 0 \<le> 2 * 2" by (simp add: endless_engine_def)
  have full: "decode_loop 4 endless_engine example_args 2 False 0 =
        ([Readfield, Put (Some 1), Readfield, Put (Some 2), Readfield, Put (Some 3),
          Readfield, Put (Some 4),
          Print Stdout [Str ''saving JSON and exiting''], Put (Some 4), Close, Put None],
         Some (Exit 0))"
    by code_simp
  have c: "loop_cond ?S 7 False (1, 1)" by code_simp
  have r: "readfield ?S (1, 1) = (Inr None, (1, 1))" by code_simp
  have d: "snapshot_due (fields_written ?S (1, 1))" by code_simp
  have s: "snapshot ?S (1, 1) = 1" by code_simp
  have x: "fst (cleanup ?S (1, 1)) = [Put (Some 1), Close, Put None]" by code_simp
  note a = loop_terminates[where E = endless_engine and N = 2 and ?e0.0 = 0 and a = example_args]
  note b = loop_terminates[where E = ?S and N = 7 and d = False and e = "(1, 1)"
      and e' = "(1, 1)" and a = example_args and m = 0]
  have first: "(\<exists>evs e1. decode_loop 4 endless_engine example_args 2 False 0 =
                   (evs @ normal_exit endless_engine e1, Some (Exit 0))
         \<and> count_list evs Readfield = 4 \<and> fields_written endless_engine e1 = 4)"
    and early: "snd (decode_loop 3 endless_engine example_args 2 False 0) = None"
    using a steady k w by auto
  have last: "decode_loop 1 ?S example_args 7 False (1, 1) =
        ([Readfield, Put (Some 1),
          Print Stdout [Str ''saving JSON and exiting''], Put (Some 1), Close, Put None],
         Some (Exit 0))"
    using b c r d s x by simp
  from first early full c r last show ?thesis by blast
qed

subsection \<open>Finalization\<close>

lemma no_final_Cons [simp]: "no_final (x # xs) = (x \<noteq> Close \<and> x \<noteq> Put None \<and> no_final xs)"
  by (auto simp: no_final_def)

lemma no_final_setup:
  "no_final (before_construction v a)"
  "no_final (fst (seek E v a e))"
  by (simp_all add: no_final_def before_construction_def seek_def Let_def split: prod.splits)

lemma cleanup_events: "fst (cleanup E e) = [Put (Some (snapshot E e)), Close, Put None]"
  by (simp add: cleanup_def)

text \<open>Every run: either nothing of the finalization has happened, or it is the end of the trace.\<close>

lemma main_shape:
  "(no_final (trace (main fuel E v a)) \<and> (\<forall>c. result (main fuel E v a) = Some (Exit c) \<longrightarrow> make_loader v \<noteq> Inr ()))
   \<or> (\<exists>pre e c. trace (main fuel E v a) = pre @ fst (cleanup E e) \<and> no_final pre \<and>
         result (main fuel E v a) = Some (Exit c))"
proof (cases "make_loader v")
  case (Inl err)
  then have "no_final (trace (main fuel E v a))"
    by (cases err) (simp_all add: main_def no_final_def)
  with Inl show ?thesis by simp
next
  case (Inr l)
  show ?thesis
  proof (cases "VHSDecode v (make_config v a)")
    case (Inl err)
    with Inr show ?thesis
      by (simp add: main_constructor_raises no_final_setup)
  next
    case ok: (Inr e0)
    let ?e = "snd (seek E v a e0)"
    let ?pre = "before_construction v a @ [Signal (installed_handler v)] @ fst (seek E v a e0)"
    obtain evs r where dl: "decode_loop fuel E a (req_frames v) False ?e = (evs, r)"
      by (cases "decode_loop fuel E a (req_frames v) False ?e")
    have m: "trace (main fuel E v a) = ?pre @ evs" "result (main fuel E v a) = r"
      using main_loader_ok[OF Inr ok, of fuel E] dl by simp_all
    have p: "no_final ?pre" by (simp add: no_final_setup no_final_Cons)
    show ?thesis
    proof (cases r)
      case None
      with decode_loop_shape[OF dl] m p show ?thesis by simp
    next
      case (Some x)
      show ?thesis
      proof (cases x)
        case (Exit c)
        with Some decode_loop_shape[OF dl] obtain pre e'
          where "evs = pre @ fst (cleanup E e')" "no_final pre" by auto
        with m p Some Exit have "trace (main fuel E v a) = (?pre @ pre) @ fst (cleanup E e')"
          "no_final (?pre @ pre)" "result (main fuel E v a) = Some (Exit c)"
          by simp_all
        then show ?thesis by blast
      next
        case (Uncaught err)
        with Some decode_loop_shape[OF dl] m p show ?thesis by simp
      qed
    qed
  qed
qed

subsection \<open>The messages on the queue\<close>

lemma writer_all:
  "None \<notin> set ms \<Longrightarrow> map Some (writer (ms @ [Some j, None])) @ [None] = ms @ [Some j, None]"
  by (induction ms rule: writer.induct) simp_all

lemma messages_append: "messages (xs @ ys) = messages xs @ messages ys"
  by (induction xs rule: messages.induct) simp_all

lemma messages_no_final: "Put None \<notin> set evs \<Longrightarrow> None \<notin> set (messages evs)"
  by (induction evs rule: messages.induct) auto

lemma messages_cleanup: "messages (fst (cleanup E e)) = [Some (snapshot E e), None]"
  by (simp add: cleanup_def)

text \<open>
  C6: in every run, also one that is still in the loop or ended before the loop, \<open>None\<close>
  is put on the queue at most once; when it has been put, it is the last message put,
  the message before it is the snapshot of the finalization, and a writer that takes
  the messages in this order has written every snapshot when it meets \<open>None\<close>, its last
  message. The finalization is, in this order: put the final snapshot, close the
  decoder, put \<open>None\<close>.
\<close>

theorem sentinel_once_and_last:
  "count_list (messages (trace (main fuel E v a))) None \<le> 1
   \<and> (None \<in> set (messages (trace (main fuel E v a))) \<longrightarrow>
        (\<exists>ms e. messages (trace (main fuel E v a)) = ms @ [Some (snapshot E e), None]
                 \<and> None \<notin> set ms)
        \<and> map Some (writer (messages (trace (main fuel E v a)))) @ [None]
            = messages (trace (main fuel E v a)))
   \<and> (Put None \<in> set (trace (main fuel E v a)) \<longrightarrow>
        (\<exists>pre e. trace (main fuel E v a) = pre @ [Put (Some (snapshot E e)), Close, Put None]
                  \<and> Close \<notin> set pre \<and> Put None \<notin> set pre))
   \<and> fst (cleanup E e\<^sub>1) = [Put (Some (snapshot E e\<^sub>1)), Close, Put None]"
proof -
  let ?t = "trace (main fuel E v a)"
  consider (none) "no_final ?t"
    | (final) pre e where "?t = pre @ fst (cleanup E e)" "no_final pre"
    using main_shape[of fuel E v a] by blast
  then have "count_list (messages ?t) None \<le> 1
   \<and> (None \<in> set (messages ?t) \<longrightarrow>
        (\<exists>ms e. messages ?t = ms @ [Some (snapshot E e), None] \<and> None \<notin> set ms)
        \<and> map Some (writer (messages ?t)) @ [None] = messages ?t)
   \<and> (Put None \<in> set ?t \<longrightarrow>
        (\<exists>pre e. ?t = pre @ [Put (Some (snapshot E e)), Close, Put None]
                  \<and> Close \<notin> set pre \<and> Put None \<notin> set pre))"
  proof cases
    case none
    then have p: "Put None \<notin> set ?t" by (simp add: no_final_def)
    then have "None \<notin> set (messages ?t)" by (rule messages_no_final)
    with p show ?thesis by simp
  next
    case (final pre e)
    then have n: "Close \<notin> set pre" "Put None \<notin> set pre" by (simp_all add: no_final_def)
    then have m: "None \<notin> set (messages pre)" by (simp add: messages_no_final)
    have t: "?t = pre @ [Put (Some (snapshot E e)), Close, Put None]"
      using final(1) by (simp add: cleanup_events)
    have ms: "messages ?t = messages pre @ [Some (snapshot E e), None]"
      unfolding t by (simp add: messages_append)
    have c: "count_list (messages ?t) None \<le> 1"
      unfolding ms using m by simp
    have w: "map Some (writer (messages ?t)) @ [None] = messages ?t"
      unfolding ms using m by (rule writer_all)
    from t n ms m c w show ?thesis by blast
  qed
  then show ?thesis by (simp add: cleanup_events)
qed

theorem sentinel_once_and_last_witness:
  "Put None \<in> set (trace (main 1 (script_engine [Inl KeyboardInterrupt]) example_env example_args))
   \<and> messages (trace (main 1 (script_engine [Inl KeyboardInterrupt]) example_env example_args))
       = [Some 0, None]
   \<and> count_list (messages (trace (main 1 (script_engine [Inl KeyboardInterrupt]) example_env example_args))) None \<le> 1
   \<and> writer (messages (trace (main 1 (script_engine [Inl KeyboardInterrupt]) example_env example_args))) = [0]
   \<and> (\<exists>pre e. trace (main 1 (script_engine [Inl KeyboardInterrupt]) example_env example_args)
          = pre @ [Put (Some (snapshot (script_engine [Inl KeyboardInterrupt]) e)), Close, Put None]
          \<and> Close \<notin> set pre \<and> Put None \<notin> set pre)"
proof -
  let ?t = "trace (main 1 (script_engine [Inl KeyboardInterrupt]) example_env example_args)"
  have p: "Put None \<in> set ?t" by code_simp
  have m: "messages ?t = [Some 0, None]" by code_simp
  have w: "writer [Some (0::int), None] = [0]" by simp
  show ?thesis
    using sentinel_once_and_last[of 1 "script_engine [Inl KeyboardInterrupt]" example_env example_args] p m w
    by simp
qed

subsection \<open>After the stop sentinel\<close>

lemma not_loop_event_Join: "\<forall>ev \<in> set evs. loop_event ev \<Longrightarrow> Join \<notin> set evs"
  by auto

lemma no_Join_setup:
  "Join \<notin> set (before_construction v a)"
  "Join \<notin> set (fst (seek E v a e))"
  by (simp_all add: before_construction_def seek_def Let_def split: prod.splits)

lemma no_Join_main: "Join \<notin> set (trace (main fuel E v a))"
proof (cases "make_loader v")
  case (Inl err)
  then show ?thesis by (cases err) (simp_all add: main_def)
next
  case (Inr l)
  show ?thesis
  proof (cases "VHSDecode v (make_config v a)")
    case (Inl err)
    with Inr show ?thesis by (simp add: main_constructor_raises no_Join_setup)
  next
    case ok: (Inr e0)
    show ?thesis
      using main_loader_ok[OF Inr ok, of fuel E]
        not_loop_event_Join[OF decode_loop_events, of fuel E a "req_frames v" False "snd (seek E v a e0)"]
      by (simp add: no_Join_setup)
  qed
qed

text \<open>
  C7, as the code has it: \<open>main\<close> never waits for the writer thread. Putting \<open>None\<close> on
  the queue is the last statement of \<open>cleanup\<close>; whenever \<open>None\<close> has been put it is the
  last thing \<open>main\<close> has done, and the run ends there with a call of \<open>exit\<close>.
\<close>

theorem sentinel_is_last_action:
  "Join \<notin> set (trace (main fuel E v a))
   \<and> (Put None \<in> set (trace (main fuel E v a)) \<longrightarrow>
        last (trace (main fuel E v a)) = Put None
        \<and> (\<exists>c. result (main fuel E v a) = Some (Exit c)))
   \<and> last (fst (cleanup E e)) = Put None \<and> Join \<notin> set (fst (cleanup E e))"
proof -
  let ?t = "trace (main fuel E v a)"
  have "Put None \<in> set ?t \<longrightarrow> last ?t = Put None \<and> (\<exists>c. result (main fuel E v a) = Some (Exit c))"
  proof
    assume p: "Put None \<in> set ?t"
    then have "\<not> no_final ?t" by (simp add: no_final_def)
    with main_shape[of fuel E v a] obtain pre e' c
      where "?t = pre @ fst (cleanup E e')" "result (main fuel E v a) = Some (Exit c)"
      by blast
    then show "last ?t = Put None \<and> (\<exists>c. result (main fuel E v a) = Some (Exit c))"
      by (simp add: cleanup_events)
  qed
  then show ?thesis using no_Join_main[of fuel E v a] by (simp add: cleanup_events)
qed

theorem sentinel_is_last_action_witness:
  "Put None \<in> set (trace (main 2 (script_engine [Inr (Some 0), Inr (Some 1)]) example_env example_args))
   \<and> last (trace (main 2 (script_engine [Inr (Some 0), Inr (Some 1)]) example_env example_args)) = Put None
   \<and> (\<exists>c. result (main 2 (script_engine [Inr (Some 0), Inr (Some 1)]) example_env example_args)
          = Some (Exit c))"
proof -
  let ?t = "trace (main 2 (script_engine [Inr (Some 0), Inr (Some 1)]) example_env example_args)"
  have p: "Put None \<in> set ?t" by code_simp
  show ?thesis
    using sentinel_is_last_action[of 2 "script_engine [Inr (Some 0), Inr (Some 1)]" example_env example_args] p
    by simp
qed

text \<open>
  The claim that the finalization blocks after the stop sentinel until the writer has
  confirmed fails: in this run, which ends with status 0, putting \<open>None\<close> is the last
  event and there is no \<open>Join\<close>.
\<close>

theorem no_wait_for_writer_counterexample:
  "result (main 2 (script_engine [Inr (Some 0), Inr (Some 1)]) example_env example_args)
     = Some (Exit 0)
   \<and> trace (main 2 (script_engine [Inr (Some 0), Inr (Some 1)]) example_env example_args) =
      [Signal SIG_IGN, Init_logging ''out.log'',
       New_VHSDecode \<lparr>cfg_system = ''PAL'', cfg_tape_format = ''VHS'', cfg_doDOD = True,
          cfg_threads = 1, cfg_inputfreq = 40\<rparr>,
       Signal default_int_handler, Roughseek 0 None, Jsondump_thread,
       Readfield, Put (Some 1), Readfield, Put (Some 2),
       Print Stdout [Str ''saving JSON and exiting''], Put (Some 2), Close, Put None]
   \<and> Join \<notin> set (trace (main 2 (script_engine [Inr (Some 0), Inr (Some 1)]) example_env example_args))"
  by code_simp

subsection \<open>Without faults\<close>

text \<open>With no faults, the definitions with raising calls are the definitions without.\<close>

lemma put_snapshot_no_faults: "put_snapshot no_faults E e = ([Put (Some (snapshot E e))], None)"
  by (simp add: put_snapshot_def no_faults_def)

lemma cleanup_raising_no_faults: "cleanup_raising no_faults E e = (fst (cleanup E e), None)"
  by (simp add: cleanup_raising_def put_snapshot_no_faults cleanup_def) (simp add: no_faults_def)

lemma cleanup_exit_no_faults: "cleanup_exit no_faults E e n = (fst (cleanup E e), Exit n)"
  by (simp add: cleanup_exit_def cleanup_raising_no_faults)

lemma loop_body_raising_no_faults: "loop_body_raising no_faults E a d e = loop_body E a d e"
  by (simp add: loop_body_raising_def loop_body_def cleanup_exit_no_faults
      put_snapshot_no_faults Let_def split: prod.splits sum.splits)

lemma normal_exit_raising_no_faults:
  "normal_exit_raising no_faults E e = (normal_exit E e, Exit 0)"
  by (simp add: normal_exit_raising_def normal_exit_def cleanup_exit_no_faults)

lemma decode_loop_raising_no_faults:
  "decode_loop_raising n no_faults E a req d e = decode_loop n E a req d e"
  by (induction n arbitrary: d e)
     (simp_all add: loop_body_raising_no_faults normal_exit_raising_no_faults
        split: prod.splits sum.splits)

lemma main_raising_no_faults: "main_raising fuel no_faults E v a = main fuel E v a"
  unfolding main_raising_def main_def decode_loop_raising_no_faults by (rule refl)

subsection \<open>Finalization when any call may raise\<close>




















subsection \<open>Exit status\<close>









subsection \<open>The tape format that reaches the decoder\<close>

lemma loop_events_setup_free:
  assumes "\<forall>ev \<in> set evs. loop_event ev"
  shows "Warning f xs \<notin> set evs" and "New_VHSDecode c \<notin> set evs"
  using assms by auto

lemma seek_setup_free:
  "Warning f xs \<notin> set (fst (seek E v a e))" "New_VHSDecode c \<notin> set (fst (seek E v a e))"
  by (simp_all add: seek_def Let_def split: prod.splits)

lemma main_setup_events:
  "ev \<in> set (trace (main fuel E v a)) \<Longrightarrow> ev = Warning f xs \<Longrightarrow>
   ev \<in> set (before_construction v a)"
  "New_VHSDecode c \<in> set (trace (main fuel E v a)) \<Longrightarrow> c = make_config v a"
proof -
  have t: "(\<exists>post. trace (main fuel E v a) = before_construction v a @ post \<and>
             (\<forall>f xs. Warning f xs \<notin> set post) \<and> (\<forall>c. New_VHSDecode c \<notin> set post))
           \<or> (\<forall>f xs. Warning f xs \<notin> set (trace (main fuel E v a))) \<and>
              (\<forall>c. New_VHSDecode c \<notin> set (trace (main fuel E v a)))"
  proof (cases "make_loader v")
    case (Inl err)
    then show ?thesis by (cases err) (simp_all add: main_def)
  next
    case (Inr l)
    show ?thesis
    proof (cases "VHSDecode v (make_config v a)")
      case (Inl err)
      from main_constructor_raises[OF Inr Inl, of fuel E]
      have "trace (main fuel E v a) = before_construction v a @ []" by simp
      then show ?thesis by (intro disjI1 exI[of _ "[]"]) simp
    next
      case ok: (Inr e0)
      let ?post = "[Signal (installed_handler v)] @ fst (seek E v a e0) @
              fst (decode_loop fuel E a (req_frames v) False (snd (seek E v a e0)))"
      have "trace (main fuel E v a) = before_construction v a @ ?post"
        using main_loader_ok[OF Inr ok, of fuel E] by simp
      moreover have le: "\<forall>ev \<in> set (fst (decode_loop fuel E a (req_frames v) False
              (snd (seek E v a e0)))). loop_event ev"
        by (rule decode_loop_events)
      have "(\<forall>f xs. Warning f xs \<notin> set ?post) \<and> (\<forall>c. New_VHSDecode c \<notin> set ?post)"
        using loop_events_setup_free[OF le] seek_setup_free[where E = E and v = v and a = a and e = e0]
        by simp
      ultimately show ?thesis by blast
    qed
  qed
  show "ev \<in> set (trace (main fuel E v a)) \<Longrightarrow> ev = Warning f xs \<Longrightarrow>
        ev \<in> set (before_construction v a)"
    using t by auto
  show "New_VHSDecode c \<in> set (trace (main fuel E v a)) \<Longrightarrow> c = make_config v a"
    using t by (auto simp: before_construction_def)
qed

lemma constructor_called:
  "make_loader v = Inr l \<Longrightarrow> New_VHSDecode (make_config v a) \<in> set (trace (main fuel E v a))"
  using before_construction_prefix[of v l fuel E a] by (auto simp: before_construction_def)

lemma supported_names:
  "''VHS'' \<in> supported_tape_formats" "''UMATIC'' \<in> supported_tape_formats"
  by (simp_all add: supported_tape_formats_def)

lemma parse_tape_format_supported:
  assumes "\<forall>s \<in> supported_tape_formats. str_upper v s = s"
      and "parse_tape_format v opt = Inr t"
  shows "t \<in> supported_tape_formats"
    and "t = (case opt of None \<Rightarrow> ''VHS'' | Some raw \<Rightarrow> str_upper v raw)"
    and "select_tape_format v (a\<lparr>tape_format := t\<rparr>) =
           (if \<not> use_gui v \<and> umatic a then ''UMATIC'' else t)"
    and "select_tape_format v (a\<lparr>tape_format := t\<rparr>) \<in> supported_tape_formats"
proof -
  have vhs: "str_upper v ''VHS'' = ''VHS''" using assms(1) supported_names(1) by blast
  show t: "t \<in> supported_tape_formats"
    using assms(2) vhs supported_names(1)
    by (cases opt) (auto simp: parse_tape_format_def split: if_splits)
  show "t = (case opt of None \<Rightarrow> ''VHS'' | Some raw \<Rightarrow> str_upper v raw)"
    using assms(2) vhs by (cases opt) (auto simp: parse_tape_format_def split: if_splits)
  from t assms(1) have "str_upper v t = t" by blast
  then show s: "select_tape_format v (a\<lparr>tape_format := t\<rparr>) =
           (if \<not> use_gui v \<and> umatic a then ''UMATIC'' else t)"
    by (simp add: select_tape_format_def)
  show "select_tape_format v (a\<lparr>tape_format := t\<rparr>) \<in> supported_tape_formats"
    unfolding s using t supported_names(2) by simp
qed

text \<open>
  C9, as the code has it. \<open>str.upper\<close> is taken to leave the three names VHS, SVHS and
  UMATIC as they are. A tape format that after upper-casing is not one of the three
  never reaches the warning: the parser rejects it, and \<open>main\<close> ends with \<open>SystemExit(2)\<close>
  before anything is logged and before the decoder is constructed. Whatever the option
  is, and also when it is not given, no run logs the warning "Tape format ... not
  supported! Defaulting to VHS", and every call of the constructor gets a supported tape
  format: UMATIC when the U-matic flag is set outside the GUI, else the upper-cased
  value of the option, or VHS when the option is not given. Nothing is put in the place
  of the value of the option. With a loader that returns and an accepted value the
  constructor is called.
\<close>

theorem tape_format_checked_by_parser:
  assumes "\<forall>s \<in> supported_tape_formats. str_upper v s = s"
  shows "(str_upper v raw \<notin> supported_tape_formats \<longrightarrow>
            main_argv fuel E v (Some raw) a =
              \<lparr>sigint = installed_handler v, trace = [],
               result = Some (Uncaught (SystemExit 2))\<rparr>)
         \<and> (\<forall>xs. Warning ''Tape format %s not supported! Defaulting to VHS'' xs
                \<notin> set (trace (main_argv fuel E v opt a)))
         \<and> (\<forall>c. New_VHSDecode c \<in> set (trace (main_argv fuel E v opt a)) \<longrightarrow>
                cfg_tape_format c \<in> supported_tape_formats \<and>
                cfg_tape_format c =
                  (if \<not> use_gui v \<and> umatic a then ''UMATIC''
                   else (case opt of None \<Rightarrow> ''VHS'' | Some given \<Rightarrow> str_upper v given)))
         \<and> (make_loader v = Inr l \<and> str_upper v raw \<in> supported_tape_formats \<longrightarrow>
                (\<exists>c. New_VHSDecode c \<in> set (trace (main_argv fuel E v (Some raw) a))))"
proof (intro conjI impI allI)
  assume "str_upper v raw \<notin> supported_tape_formats"
  then show "main_argv fuel E v (Some raw) a =
              \<lparr>sigint = installed_handler v, trace = [],
               result = Some (Uncaught (SystemExit 2))\<rparr>"
    by (simp add: main_argv_def parse_tape_format_def)
next
  fix xs
  show "Warning ''Tape format %s not supported! Defaulting to VHS'' xs
          \<notin> set (trace (main_argv fuel E v opt a))"
  proof (cases "parse_tape_format v opt")
    case (Inl err)
    then show ?thesis by (simp add: main_argv_def)
  next
    case (Inr t)
    have "Warning ''Tape format %s not supported! Defaulting to VHS'' xs
            \<notin> set (trace (main fuel E v (a\<lparr>tape_format := t\<rparr>)))"
    proof
      assume "Warning ''Tape format %s not supported! Defaulting to VHS'' xs
            \<in> set (trace (main fuel E v (a\<lparr>tape_format := t\<rparr>)))"
      from main_setup_events(1)[OF this refl]
      show False
        using parse_tape_format_supported(4)[OF assms Inr, of a]
        by (simp add: before_construction_def)
    qed
    with Inr show ?thesis by (simp add: main_argv_def)
  qed
next
  fix c
  assume c: "New_VHSDecode c \<in> set (trace (main_argv fuel E v opt a))"
  then obtain t where p: "parse_tape_format v opt = Inr t"
    by (cases "parse_tape_format v opt") (simp_all add: main_argv_def)
  with c have "New_VHSDecode c \<in> set (trace (main fuel E v (a\<lparr>tape_format := t\<rparr>)))"
    by (simp add: main_argv_def)
  then have "c = make_config v (a\<lparr>tape_format := t\<rparr>)" by (rule main_setup_events(2))
  then have f: "cfg_tape_format c = select_tape_format v (a\<lparr>tape_format := t\<rparr>)"
    by (simp add: make_config_def)
  show "cfg_tape_format c \<in> supported_tape_formats"
    unfolding f by (rule parse_tape_format_supported(4)[OF assms p])
  show "cfg_tape_format c =
          (if \<not> use_gui v \<and> umatic a then ''UMATIC''
           else (case opt of None \<Rightarrow> ''VHS'' | Some given \<Rightarrow> str_upper v given))"
    unfolding f parse_tape_format_supported(3)[OF assms p]
    using parse_tape_format_supported(2)[OF assms p] by simp
next
  assume "make_loader v = Inr l \<and> str_upper v raw \<in> supported_tape_formats"
  then have l: "make_loader v = Inr l" and s: "str_upper v raw \<in> supported_tape_formats"
    by simp_all
  from s have "main_argv fuel E v (Some raw) a =
      main fuel E v (a\<lparr>tape_format := str_upper v raw\<rparr>)"
    by (simp add: main_argv_def parse_tape_format_def)
  with constructor_called[OF l, of "a\<lparr>tape_format := str_upper v raw\<rparr>" fuel E]
  show "\<exists>c. New_VHSDecode c \<in> set (trace (main_argv fuel E v (Some raw) a))" by auto
qed

theorem tape_format_checked_by_parser_witness:
  "str_upper example_env ''beta'' \<notin> supported_tape_formats
   \<and> main_argv 2 (script_engine []) example_env (Some ''beta'') example_args =
       \<lparr>sigint = default_int_handler, trace = [], result = Some (Uncaught (SystemExit 2))\<rparr>
   \<and> make_loader example_env = Inr ()
   \<and> str_upper example_env ''svhs'' \<in> supported_tape_formats
   \<and> (\<exists>c. New_VHSDecode c \<in> set (trace (main_argv 2 (script_engine []) example_env
                (Some ''svhs'') example_args)))
   \<and> New_VHSDecode \<lparr>cfg_system = ''PAL'', cfg_tape_format = ''SVHS'', cfg_doDOD = True,
         cfg_threads = 1, cfg_inputfreq = 40\<rparr>
       \<in> set (trace (main_argv 2 (script_engine []) example_env (Some ''svhs'') example_args))
   \<and> cfg_tape_format \<lparr>cfg_system = ''PAL'', cfg_tape_format = ''SVHS'', cfg_doDOD = True,
         cfg_threads = 1, cfg_inputfreq = 40\<rparr> \<in> supported_tape_formats"
proof -
  have sup: "\<forall>s \<in> supported_tape_formats. str_upper example_env s = s"
  proof
    fix s assume "s \<in> supported_tape_formats"
    then consider "s = ''VHS''" | "s = ''SVHS''" | "s = ''UMATIC''"
      by (auto simp: supported_tape_formats_def)
    then show "str_upper example_env s = s"
    proof cases
      case 1 show ?thesis unfolding 1 by code_simp
    next
      case 2 show ?thesis unfolding 2 by code_simp
    next
      case 3 show ?thesis unfolding 3 by code_simp
    qed
  qed
  have b: "str_upper example_env ''beta'' \<notin> supported_tape_formats" by code_simp
  have s: "str_upper example_env ''svhs'' \<in> supported_tape_formats" by code_simp
  have l: "make_loader example_env = Inr ()" by (simp add: example_env_def)
  have n: "New_VHSDecode \<lparr>cfg_system = ''PAL'', cfg_tape_format = ''SVHS'', cfg_doDOD = True,
         cfg_threads = 1, cfg_inputfreq = 40\<rparr>
       \<in> set (trace (main_argv 2 (script_engine []) example_env (Some ''svhs'') example_args))"
    by code_simp
  have i: "installed_handler example_env = default_int_handler" by (simp add: example_env_def)
  note t = tape_format_checked_by_parser[OF sup, where fuel = 2 and E = "script_engine []"
      and a = example_args and l = "()"]
  from t[where raw = "''beta''" and opt = "Some ''beta''"] b i
  have 1: "main_argv 2 (script_engine []) example_env (Some ''beta'') example_args =
       \<lparr>sigint = default_int_handler, trace = [], result = Some (Uncaught (SystemExit 2))\<rparr>"
    by simp
  from t[where raw = "''svhs''" and opt = "Some ''svhs''"] l s
  have 2: "\<exists>c. New_VHSDecode c \<in> set (trace (main_argv 2 (script_engine []) example_env
                (Some ''svhs'') example_args))"
    by simp
  from t[where raw = "''svhs''" and opt = "Some ''svhs''"] n
  have 3: "cfg_tape_format \<lparr>cfg_system = ''PAL'', cfg_tape_format = ''SVHS'', cfg_doDOD = True,
         cfg_threads = 1, cfg_inputfreq = 40\<rparr> \<in> supported_tape_formats"
    by blast
  from b 1 l s 2 n 3 show ?thesis by (intro conjI)
qed

text \<open>
  The claim that an unsupported tape format is warned about and passed to the decoder
  fails: for the option value BETA the parser ends the run, with an empty trace, so
  with no warning and no decoder.
\<close>

theorem unsupported_tape_format_rejected_counterexample:
  "str_upper example_env ''BETA'' = ''BETA''
   \<and> ''BETA'' \<notin> supported_tape_formats
   \<and> main_argv 2 (script_engine []) example_env (Some ''BETA'') example_args =
       \<lparr>sigint = default_int_handler, trace = [], result = Some (Uncaught (SystemExit 2))\<rparr>"
  by code_simp

end
